theory Spec2Isabelle
  imports
    Main
    "HOL-Library.Char_ord"
    "HOL-Library.List_Lexorder"
    "HOL-Library.Sublist"
begin

section \<open>Go primitives used by the driver and the handlers\<close>

text \<open>
  Go strings are byte sequences: \<^typ>\<open>string\<close> (a list of \<^typ>\<open>char\<close>, one per byte).
  Go compares strings byte by byte, a proper prefix being smaller; with
  \<open>Char_ord\<close> and \<open>List_Lexorder\<close> the order \<open><\<close> on \<^typ>\<open>string\<close> is that order.
  Go's \<open>int\<close> is taken as the 64-bit integer of the usual server platforms; it is
  modelled by \<^typ>\<open>int\<close>, with the bounds written out where a conversion clamps.
\<close>

subsection \<open>Package strings\<close>

text \<open>\<open>strings.HasPrefix(s, prefix)\<close>.\<close>

definition HasPrefix :: "string \<Rightarrow> string \<Rightarrow> bool" where
  "HasPrefix s p = prefix p s"

text \<open>\<open>strings.TrimPrefix(s, prefix)\<close>: \<open>s\<close> without the leading \<open>prefix\<close>, or \<open>s\<close> itself.\<close>

definition TrimPrefix :: "string \<Rightarrow> string \<Rightarrow> string" where
  "TrimPrefix s p = (if HasPrefix s p then drop (length p) s else s)"

text \<open>\<open>strings.Index(s, sep)\<close>: the position of the first occurrence of \<open>sep\<close>, or \<open>-1\<close>.\<close>

fun Index :: "string \<Rightarrow> string \<Rightarrow> int" where
  "Index [] sep = (if sep = [] then 0 else - 1)"
| "Index (c # cs) sep =
     (if prefix sep (c # cs) then 0
      else (let i = Index cs sep in if i < 0 then - 1 else i + 1))"

text \<open>\<open>strings.Contains(s, substr)\<close> is \<open>Index(s, substr) >= 0\<close>.\<close>

definition Contains :: "string \<Rightarrow> string \<Rightarrow> bool" where
  "Contains s substr = (0 \<le> Index s substr)"

subsection \<open>White space: packages unicode/utf8, unicode and strings.TrimSpace\<close>

text \<open>
  A rune is a Unicode code point, held in \<^typ>\<open>int\<close>. \<open>utf8.DecodeRuneInString\<close> reads
  the first rune of a string and its width in bytes; a byte sequence that is not the
  shortest UTF-8 form of a code point gives \<open>(RuneError, 1)\<close>, the empty string
  \<open>(RuneError, 0)\<close>.
\<close>

definition RuneError :: int where
  "RuneError = 0xFFFD"

definition DecodeRuneInString :: "string \<Rightarrow> int \<times> nat" where
  "DecodeRuneInString s =
     (case s of
        [] \<Rightarrow> (RuneError, 0)
      | b0 # s1 \<Rightarrow>
          (let c0 = of_char b0 in
           if c0 < 0x80 then (c0, 1)
           else if c0 < 0xC0 then (RuneError, 1)
           else (case s1 of
                   [] \<Rightarrow> (RuneError, 1)
                 | b1 # s2 \<Rightarrow>
                     (let c1 = of_char b1 in
                      if c1 < 0x80 \<or> 0xC0 \<le> c1 then (RuneError, 1)
                      else if c0 < 0xE0 then
                        (let r = (c0 mod 32) * 64 + c1 mod 64 in
                         if r \<le> 0x7F then (RuneError, 1) else (r, 2))
                      else (case s2 of
                              [] \<Rightarrow> (RuneError, 1)
                            | b2 # s3 \<Rightarrow>
                                (let c2 = of_char b2 in
                                 if c2 < 0x80 \<or> 0xC0 \<le> c2 then (RuneError, 1)
                                 else if c0 < 0xF0 then
                                   (let r = (c0 mod 16) * 4096 + (c1 mod 64) * 64 + c2 mod 64 in
                                    if r \<le> 0x7FF then (RuneError, 1)
                                    else if 0xD800 \<le> r \<and> r \<le> 0xDFFF then (RuneError, 1)
                                    else (r, 3))
                                 else (case s3 of
                                         [] \<Rightarrow> (RuneError, 1)
                                       | b3 # s4 \<Rightarrow>
                                           (let c3 = of_char b3 in
                                            if c3 < 0x80 \<or> 0xC0 \<le> c3 then (RuneError, 1)
                                            else if c0 < 0xF8 then
                                              (let r = (c0 mod 8) * 262144 + (c1 mod 64) * 4096
                                                       + (c2 mod 64) * 64 + c3 mod 64 in
                                               if r \<le> 0xFFFF \<or> 0x10FFFF < r then (RuneError, 1)
                                               else (r, 4))
                                            else (RuneError, 1)))))))))"

text \<open>\<open>utf8.RuneStart(b)\<close>: the byte is not a continuation byte.\<close>

definition RuneStart :: "char \<Rightarrow> bool" where
  "RuneStart b = (\<not> (0x80 \<le> (of_char b :: int) \<and> (of_char b :: int) < 0xC0))"

text \<open>
  The loop of \<open>utf8.DecodeLastRuneInString\<close> that walks back from \<open>start\<close> to the limit
  \<open>lim\<close> and stops at a byte that can start a rune.
\<close>

function scanStart :: "string \<Rightarrow> int \<Rightarrow> int \<Rightarrow> int" where
  "scanStart s lim start =
     (if start < lim then start
      else if RuneStart (s ! nat start) then start
      else scanStart s lim (start - 1))"
  by pat_completeness auto
termination
  by (relation "measure (\<lambda>(s, lim, start). nat (start - lim + 1))") auto

declare scanStart.simps [simp del]

text \<open>
  \<open>utf8.DecodeLastRuneInString\<close>: the last rune of a string and its width. It looks
  back at most four bytes for the start of the rune and decodes from there; when
  the rune decoded does not end at the end of the string the result is
  \<open>(RuneError, 1)\<close>.
\<close>

definition DecodeLastRuneInString :: "string \<Rightarrow> int \<times> nat" where
  "DecodeLastRuneInString s =
     (let end = int (length s) in
      if end = 0 then (RuneError, 0)
      else (let r = of_char (s ! nat (end - 1)) in
            if r < 0x80 then (r, 1)
            else (let lim = max 0 (end - 4);
                      start0 = scanStart s lim (end - 2);
                      start = (if start0 < 0 then 0 else start0);
                      (r, size) = DecodeRuneInString (drop (nat start) s)
                  in if start + int size \<noteq> end then (RuneError, 1) else (r, size))))"

text \<open>
  \<open>unicode.IsSpace\<close>: in Latin-1 the six ASCII white-space characters, U+0085 and
  U+00A0; beyond it the code points with the property White_Space.
\<close>

definition IsSpace :: "int \<Rightarrow> bool" where
  "IsSpace r =
     (if r \<le> 0xFF
      then r = 0x09 \<or> r = 0x0A \<or> r = 0x0B \<or> r = 0x0C \<or> r = 0x0D \<or> r = 0x20
           \<or> r = 0x85 \<or> r = 0xA0
      else r = 0x1680 \<or> (0x2000 \<le> r \<and> r \<le> 0x200A) \<or> r = 0x2028 \<or> r = 0x2029
           \<or> r = 0x202F \<or> r = 0x205F \<or> r = 0x3000)"

text \<open>
  One step of the loop of \<open>indexFunc\<close>: the rune at the front of a non-empty string
  and its width; a byte below \<open>utf8.RuneSelf\<close> is its own rune.
\<close>

definition firstRune :: "string \<Rightarrow> int \<times> nat" where
  "firstRune s =
     (if (of_char (hd s) :: int) < 0x80 then (of_char (hd s), 1) else DecodeRuneInString s)"

text \<open>
  \<open>strings.TrimLeftFunc(s, unicode.IsSpace)\<close>: the string from its first rune that is
  not white space on, or the empty string when there is none.
\<close>

function TrimLeftFunc :: "string \<Rightarrow> string" where
  "TrimLeftFunc s =
     (if s = [] then []
      else (let (r, wid) = firstRune s in
            if IsSpace r then TrimLeftFunc (drop wid s) else s))"
  by pat_completeness auto
termination
proof (relation "measure length")
  show "wf (measure length)" by simp
next
  fix s :: string and x :: "int \<times> nat" and r :: int and wid :: nat
  assume s: "s \<noteq> []" and x: "x = firstRune s" "(r, wid) = x"
  from s have "0 < snd (DecodeRuneInString s)"
    by (simp add: DecodeRuneInString_def Let_def split: list.splits)
  then have "0 < snd (firstRune s)"
    by (simp add: firstRune_def)
  with x have "0 < wid" by (metis snd_conv)
  with s show "(drop wid s, s) \<in> measure length" by simp
qed

declare TrimLeftFunc.simps [simp del]

text \<open>
  \<open>lastIndexFunc(s, unicode.IsSpace, false)\<close>: the index at which the last rune that is
  not white space starts, or \<open>-1\<close>. The loop shortens \<open>s[0:i]\<close> rune by rune from the
  end; the argument here is that prefix.
\<close>

function lastIndexFunc :: "string \<Rightarrow> int" where
  "lastIndexFunc s =
     (if s = [] then - 1
      else (let (r, size) = DecodeLastRuneInString s in
            if IsSpace r then lastIndexFunc (take (length s - size) s)
            else int (length s) - int size))"
  by pat_completeness auto
termination
proof (relation "measure length")
  show "wf (measure length)" by simp
next
  fix s :: string and x :: "int \<times> nat" and r :: int and size :: nat
  assume s: "s \<noteq> []" and x: "x = DecodeLastRuneInString s" "(r, size) = x"
  have le: "scanStart t lim start \<le> start" for t lim start
  proof (induction t lim start rule: scanStart.induct)
    case (1 t lim start)
    show ?case
    proof (cases "start < lim \<or> RuneStart (t ! nat start)")
      case True
      then show ?thesis by (subst scanStart.simps) auto
    next
      case False
      with "1.IH" have "scanStart t lim (start - 1) \<le> start - 1" by simp
      with False show ?thesis by (subst scanStart.simps) simp
    qed
  qed
  define e where "e = int (length s)"
  define start where
    "start = (if scanStart s (max 0 (e - 4)) (e - 2) < 0 then 0
              else scanStart s (max 0 (e - 4)) (e - 2))"
  from s have pos: "0 < e" by (simp add: e_def)
  have "start \<le> e - 2 \<or> start = 0"
    using le[of s "max 0 (e - 4)" "e - 2"] by (simp add: start_def)
  with pos have "nat start < length s" unfolding e_def by arith
  then have "drop (nat start) s \<noteq> []" by simp
  then have "0 < snd (DecodeRuneInString (drop (nat start) s))"
    by (simp add: DecodeRuneInString_def Let_def split: list.splits)
  with pos have "0 < snd (DecodeLastRuneInString s)"
    unfolding DecodeLastRuneInString_def Let_def e_def[symmetric] start_def[symmetric]
    by (simp add: case_prod_beta)
  with x have "0 < size" by (metis snd_conv)
  with s show "(take (length s - size) s, s) \<in> measure length" by simp
qed

declare lastIndexFunc.simps [simp del]

text \<open>
  \<open>strings.TrimRightFunc(s, unicode.IsSpace)\<close>: the string up to and including its
  last rune that is not white space.
\<close>

definition TrimRightFunc :: "string \<Rightarrow> string" where
  "TrimRightFunc s =
     (let i = lastIndexFunc s;
          j = (if 0 \<le> i \<and> 0x80 \<le> (of_char (s ! nat i) :: int)
               then i + int (snd (DecodeRuneInString (drop (nat i) s)))
               else i + 1)
      in take (nat j) s)"

text \<open>
  \<open>strings.TrimSpace(s)\<close> is \<open>TrimFunc(s, unicode.IsSpace)\<close>, that is
  \<open>TrimRightFunc(TrimLeftFunc(s, f), f)\<close>: white space is Unicode white space, read
  from the UTF-8 bytes of the string.
\<close>

definition TrimSpace :: "string \<Rightarrow> string" where
  "TrimSpace s = TrimRightFunc (TrimLeftFunc s)"

text \<open>
  \<open>utf8.EncodeRune\<close>: the UTF-8 bytes of a rune; a code point out of range or a
  surrogate is written as \<open>RuneError\<close>.
\<close>

definition EncodeRune :: "int \<Rightarrow> string" where
  "EncodeRune r0 =
     (if 0 \<le> r0 \<and> r0 < 0x80 then [char_of r0]
      else if 0 \<le> r0 \<and> r0 < 0x800 then [char_of (0xC0 + r0 div 64), char_of (0x80 + r0 mod 64)]
      else (let r = (if r0 < 0 \<or> 0x10FFFF < r0 \<or> (0xD800 \<le> r0 \<and> r0 \<le> 0xDFFF)
                     then RuneError else r0)
            in if r < 0x10000
               then [char_of (0xE0 + r div 4096), char_of (0x80 + (r div 64) mod 64),
                     char_of (0x80 + r mod 64)]
               else [char_of (0xF0 + r div 262144), char_of (0x80 + (r div 4096) mod 64),
                     char_of (0x80 + (r div 64) mod 64), char_of (0x80 + r mod 64)]))"

text \<open>
  A string is blank when it is empty or consists of white space only: it is the
  UTF-8 text of a sequence of runes that are all white space.
\<close>

definition blank :: "string \<Rightarrow> bool" where
  "blank s = (\<exists>rs. (\<forall>r\<in>set rs. IsSpace r) \<and> s = concat (map EncodeRune rs))"

subsection \<open>Maps\<close>

text \<open>
  A Go \<open>map[string]string\<close> is a finite partial function. Reading a missing key
  gives the zero value, the empty string.
\<close>

type_synonym strmap = "string \<rightharpoonup> string"

definition mapIndex :: "strmap \<Rightarrow> string \<Rightarrow> string" where
  "mapIndex m k = (case m k of None \<Rightarrow> [] | Some v \<Rightarrow> v)"

subsection \<open>Package strconv\<close>

datatype NumError = ErrSyntax | ErrRange

definition isDigit :: "char \<Rightarrow> bool" where
  "isDigit c = (CHR ''0'' \<le> c \<and> c \<le> CHR ''9'')"

definition digitVal :: "char \<Rightarrow> int" where
  "digitVal c = of_char c - of_char (CHR ''0'')"

text \<open>Values of Go's \<open>uint64\<close> are held in \<^typ>\<open>int\<close>; \<open>maxUint64\<close> is \<open>1<<64 - 1\<close>.\<close>

definition maxUint64 :: int where
  "maxUint64 = 2 ^ 64 - 1"

text \<open>
  The digit loop of \<open>strconv.ParseUint(s, 10, bitSize)\<close>: a byte that is not a digit
  ends it with \<open>(0, ErrSyntax)\<close>; an overflow of 64 bits or of \<open>maxVal\<close> ends it at once
  with \<open>(maxUint64, ErrRange)\<close>.
\<close>

fun parseUintLoop :: "int \<Rightarrow> string \<Rightarrow> int \<Rightarrow> int \<times> NumError option" where
  "parseUintLoop maxVal [] n = (n, None)"
| "parseUintLoop maxVal (d # s) n =
     (if \<not> isDigit d then (0, Some ErrSyntax)
      else if maxUint64 div 10 + 1 \<le> n then (maxUint64, Some ErrRange)
      else (let n1 = n * 10 + digitVal d in
            if maxUint64 < n1 \<or> maxVal < n1 then (maxUint64, Some ErrRange)
            else parseUintLoop maxVal s n1))"

definition ParseUint :: "string \<Rightarrow> nat \<Rightarrow> int \<times> NumError option" where
  "ParseUint s bitSize =
     (if s = [] then (0, Some ErrSyntax) else parseUintLoop (2 ^ bitSize - 1) s 0)"

text \<open>
  \<open>strconv.ParseInt(s, 10, bitSize)\<close>: an optional sign, then \<open>ParseUint\<close>. A syntax
  error gives 0; a value that does not fit gives the bound of its sign and \<open>ErrRange\<close>.
\<close>

definition ParseInt :: "string \<Rightarrow> nat \<Rightarrow> int \<times> NumError option" where
  "ParseInt s bitSize =
     (case s of
        [] \<Rightarrow> (0, Some ErrSyntax)
      | c # cs \<Rightarrow>
          (let neg = (c = CHR ''-'');
               s1 = (if c = CHR ''+'' \<or> c = CHR ''-'' then cs else s);
               (un, err) = ParseUint s1 bitSize
           in if err = Some ErrSyntax then (0, Some ErrSyntax)
              else (let cutoff = (2::int) ^ (bitSize - 1) in
                    if \<not> neg \<and> cutoff \<le> un then (cutoff - 1, Some ErrRange)
                    else if neg \<and> cutoff < un then (- cutoff, Some ErrRange)
                    else (if neg then - un else un, None))))"

text \<open>\<open>strconv.Atoi(s)\<close> is \<open>ParseInt(s, 10, 0)\<close>, the size being that of \<open>int\<close>.\<close>

definition Atoi :: "string \<Rightarrow> int \<times> NumError option" where
  "Atoi s = ParseInt s 64"

section \<open>The donut driver (package donut)\<close>

subsection \<open>Errors and state\<close>

text \<open>
  The error values of the driver. \<open>iodine.New\<close> wraps an error with context and
  \<open>iodine.ToError\<close> unwraps it; the kind is unchanged, so wrapping is the identity
  here. \<open>BackendError\<close> stands for any other error a helper may return.
\<close>

datatype error =
    InvalidArgument
  | BucketNotFound string
  | ObjectNotFound string
  | ObjectExists string
  | donut_BadDigest
  | BackendError string

text \<open>
  A call either returns or panics (the Go runtime stops it, as on an assignment to
  an entry of a nil map).
\<close>

datatype 'a outcome = Panic | Returns 'a

record donutObject =
  payload :: string
  objectMetadata :: strmap

text \<open>
  A bucket: what its \<open>ListObjects\<close> returns. The object index is a Go map; the list
  gives its entries in the order a \<open>range\<close> loop visits them, which Go leaves open.
\<close>

record bucket =
  objectIndex :: "(string \<times> donutObject) list"
  listErr :: "error option"

type_synonym bucketsMetadata = "string \<rightharpoonup> strmap"

text \<open>
  The store. The helpers \<open>getDonutBuckets\<close>, \<open>getDonutBucketMetadata\<close> and
  \<open>setDonutBucketMetadata\<close> are called by every method and are not part of the
  source file; what they return is a parameter of the state:
  \<^item> \<open>scanErr\<close>: the error of \<open>getDonutBuckets\<close> (none when it filled \<open>buckets\<close>);
  \<^item> \<open>buckets\<close>: the field \<open>d.buckets\<close> after \<open>getDonutBuckets\<close>;
  \<^item> \<open>metadataFile\<close>: what \<open>getDonutBucketMetadata\<close> reads, an error when the store
    was never written;
  \<^item> \<open>writeErr\<close>: the error of \<open>setDonutBucketMetadata\<close>, if any.
\<close>

record donut =
  scanErr :: "error option"
  buckets :: "string \<rightharpoonup> bucket"
  metadataFile :: "error + bucketsMetadata"
  writeErr :: "error option"

definition getDonutBuckets :: "donut \<Rightarrow> error option" where
  "getDonutBuckets d = scanErr d"

definition getDonutBucketMetadata :: "donut \<Rightarrow> error + bucketsMetadata" where
  "getDonutBucketMetadata d = metadataFile d"

text \<open>
  Modelled from the spec: \<open>setDonutBucketMetadata\<close> is not in the source file. The
  spec says bucket metadata persists immediately; a failed write is taken to leave
  the stored metadata as it was.
\<close>

definition setDonutBucketMetadata :: "donut \<Rightarrow> bucketsMetadata \<Rightarrow> error option \<times> donut" where
  "setDonutBucketMetadata d metadata =
     (case writeErr d of
        Some err \<Rightarrow> (Some err, d)
      | None \<Rightarrow> (None, d\<lparr>metadataFile := Inr metadata\<rparr>))"

text \<open>The metadata of a bucket as stored: what the next read of the store finds.\<close>

definition storedMetadata :: "donut \<Rightarrow> string \<Rightarrow> strmap option" where
  "storedMetadata d b = (case metadataFile d of Inl err \<Rightarrow> None | Inr metadata \<Rightarrow> metadata b)"

subsection \<open>Bucket metadata\<close>

definition GetBucketMetadata :: "donut \<Rightarrow> string \<Rightarrow> error + strmap option" where
  "GetBucketMetadata d bucket =
     (case getDonutBuckets d of
        Some err \<Rightarrow> Inl err
      | None \<Rightarrow>
          (case buckets d bucket of
             None \<Rightarrow> Inl (BucketNotFound bucket)
           | Some b \<Rightarrow>
               (case getDonutBucketMetadata d of
                  Inl err \<Rightarrow> Inl err
                | Inr metadata \<Rightarrow> Inr (metadata bucket))))"

text \<open>
  \<open>SetBucketMetadata\<close> does not look \<open>bucket\<close> up in \<open>d.buckets\<close>. It reads
  \<open>metadata[bucket]\<close>, which is the nil map when the key is missing, and assigns to
  its \<open>"acl"\<close> entry: on the nil map that assignment panics. The map read is shared
  with \<open>metadata\<close>, so the assignment already changes \<open>metadata[bucket]\<close>.
\<close>

definition SetBucketMetadata ::
  "donut \<Rightarrow> string \<Rightarrow> strmap \<Rightarrow> error option outcome \<times> donut" where
  "SetBucketMetadata d bucket bucketMetadata =
     (case getDonutBuckets d of
        Some err \<Rightarrow> (Returns (Some err), d)
      | None \<Rightarrow>
          (case getDonutBucketMetadata d of
             Inl err \<Rightarrow> (Returns (Some err), d)
           | Inr metadata \<Rightarrow>
               (case metadata bucket of
                  None \<Rightarrow> (Panic, d)
                | Some oldBucketMetadata \<Rightarrow>
                    (let newBucketMetadata =
                           oldBucketMetadata(''acl'' \<mapsto> mapIndex bucketMetadata ''acl'');
                         (err, d') =
                           setDonutBucketMetadata d (metadata(bucket \<mapsto> newBucketMetadata))
                     in (Returns err, d')))))"

definition ListBuckets :: "donut \<Rightarrow> error + bucketsMetadata" where
  "ListBuckets d =
     (case getDonutBuckets d of
        Some err \<Rightarrow> Inl err
      | None \<Rightarrow>
          (case getDonutBucketMetadata d of
             Inl err \<Rightarrow> Inr Map.empty
           | Inr metadata \<Rightarrow> Inr metadata))"

subsection \<open>String-list utilities\<close>

text \<open>
  Modelled from the spec: \<open>appendUniq\<close> is not in the source file. The spec's unique
  append keeps set semantics and the first-seen order: an element already in the list
  is not added again.
\<close>

definition appendUniq :: "string list \<Rightarrow> string \<Rightarrow> string list" where
  "appendUniq slice i = (if i \<in> set slice then slice else slice @ [i])"

text \<open>
  Modelled from the spec: \<open>filterPrefix\<close> is not in the source file. It keeps the names
  that start with \<open>p\<close> (an exact byte prefix).
\<close>

definition filterPrefix :: "string list \<Rightarrow> string \<Rightarrow> string list" where
  "filterPrefix objects p = filter (\<lambda>object. HasPrefix object p) objects"

text \<open>
  Modelled from the spec: \<open>removePrefix\<close> is not in the source file. It strips the
  leading \<open>p\<close> from every name.
\<close>

definition removePrefix :: "string list \<Rightarrow> string \<Rightarrow> string list" where
  "removePrefix objects p = map (\<lambda>object. TrimPrefix object p) objects"

text \<open>
  Modelled from the spec: \<open>filterDelimited\<close> is not in the source file. It keeps the
  names that do not contain the delimiter.
\<close>

definition filterDelimited :: "string list \<Rightarrow> string \<Rightarrow> string list" where
  "filterDelimited objects delim = filter (\<lambda>object. \<not> Contains object delim) objects"

text \<open>
  Modelled from the spec: \<open>filterNotDelimited\<close> is not in the source file. It keeps the
  names that contain the delimiter.
\<close>

definition filterNotDelimited :: "string list \<Rightarrow> string \<Rightarrow> string list" where
  "filterNotDelimited objects delim = filter (\<lambda>object. Contains object delim) objects"

text \<open>
  Modelled from the spec: \<open>extractDir\<close> is not in the source file. For each name it
  gives the substring up to and including the first occurrence of the delimiter,
  \<open>n[0 : indexOf(d) + len(d)]\<close>.
\<close>

definition extractDir :: "string list \<Rightarrow> string \<Rightarrow> string list" where
  "extractDir objects delim =
     map (\<lambda>object. take (nat (Index object delim + int (length delim))) object) objects"

text \<open>
  Modelled from the spec: \<open>uniqueObjects\<close> is not in the source file. It is the spec's
  unique list: set semantics, first-seen order.
\<close>

definition uniqueObjects :: "string list \<Rightarrow> string list" where
  "uniqueObjects objects = foldl appendUniq [] objects"

subsection \<open>Objects\<close>

text \<open>
  Modelled from the spec: the bucket's own \<open>ListObjects\<close> is not in the source file.
  It returns the object index of the bucket, or an error of the byte store.
\<close>

definition bucket_ListObjects :: "bucket \<Rightarrow> error + (string \<times> donutObject) list" where
  "bucket_ListObjects b = (case listErr b of Some err \<Rightarrow> Inl err | None \<Rightarrow> Inr (objectIndex b))"

text \<open>
  Modelled from the spec: the bucket's own \<open>PutObject\<close> is not in the source file. It
  streams the bytes to the store and computes their MD5 (the hash \<open>md5hex\<close> is a
  parameter); if the expected sum is not empty and differs from the computed one it
  fails with BadDigest and nothing is kept; on success it writes the key to the
  bucket index and returns the computed sum.
\<close>

definition bucket_PutObject ::
  "(string \<Rightarrow> string) \<Rightarrow> bucket \<Rightarrow> string \<Rightarrow> string \<Rightarrow> string \<Rightarrow> strmap
     \<Rightarrow> (error + string) \<times> bucket" where
  "bucket_PutObject md5hex b object reader expectedMD5Sum metadata =
     (let md5sum = md5hex reader in
      if expectedMD5Sum \<noteq> [] \<and> expectedMD5Sum \<noteq> md5sum then (Inl donut_BadDigest, b)
      else (Inr md5sum,
            b\<lparr>objectIndex :=
                objectIndex b @ [(object, \<lparr>payload = reader, objectMetadata = metadata\<rparr>)]\<rparr>))"

text \<open>
  Modelled from the spec: the bucket's own \<open>GetObject\<close> is not in the source file. It
  returns the bytes of the object and their number.
\<close>

definition bucket_GetObject :: "bucket \<Rightarrow> string \<Rightarrow> error + (string \<times> int)" where
  "bucket_GetObject b object =
     (case map_of (objectIndex b) object of
        None \<Rightarrow> Inl (ObjectNotFound object)
      | Some ob \<Rightarrow> Inr (payload ob, int (length (payload ob))))"

text \<open>
  The loop of \<open>ListObjects\<close> that fills \<open>results\<close>: it stops, with \<open>isTruncated\<close> set,
  at the first name it meets when \<open>results\<close> already holds \<open>maxkeys\<close> keys.
\<close>

fun collectResults :: "int \<Rightarrow> string \<Rightarrow> string list \<Rightarrow> string list \<Rightarrow> string list \<times> bool" where
  "collectResults maxkeys pfx [] results = (results, False)"
| "collectResults maxkeys pfx (objectName # rest) results =
     (if maxkeys \<le> int (length results) then (results, True)
      else collectResults maxkeys pfx rest (appendUniq results (pfx @ objectName)))"

definition ListObjects ::
  "donut \<Rightarrow> string \<Rightarrow> string \<Rightarrow> string \<Rightarrow> string \<Rightarrow> int
     \<Rightarrow> error + (string list \<times> string list \<times> bool)" where
  "ListObjects d bucket pfx marker delimiter maxkeys0 =
     (case getDonutBuckets d of
        Some err \<Rightarrow> Inl err
      | None \<Rightarrow>
          (case buckets d bucket of
             None \<Rightarrow> Inl (BucketNotFound bucket)
           | Some b \<Rightarrow>
               (case bucket_ListObjects b of
                  Inl err \<Rightarrow> Inl err
                | Inr objectList \<Rightarrow>
                    (let donutObjects0 = map fst objectList;
                         maxkeys = (if maxkeys0 \<le> 0 then 1000 else maxkeys0);
                         donutObjects =
                           (if TrimSpace pfx \<noteq> []
                            then removePrefix (filterPrefix donutObjects0 pfx) pfx
                            else donutObjects0);
                         actualObjects0 =
                           (if TrimSpace delimiter \<noteq> []
                            then filterDelimited donutObjects delimiter
                            else donutObjects);
                         actualPrefixes =
                           (if TrimSpace delimiter \<noteq> []
                            then uniqueObjects
                                   (extractDir (filterNotDelimited donutObjects delimiter) delimiter)
                            else []);
                         actualObjects = sort actualObjects0;
                         newActualObjects =
                           (if marker \<noteq> []
                            then filter (\<lambda>objectName. marker < objectName) actualObjects
                            else actualObjects);
                         (results, isTruncated) = collectResults maxkeys pfx newActualObjects [];
                         commonPrefixes =
                           foldl (\<lambda>acc commonPrefix. appendUniq acc (pfx @ commonPrefix))
                             [] actualPrefixes
                     in Inr (sort results, sort commonPrefixes, isTruncated)))))"

text \<open>
  \<open>PutObject\<close>: the arguments are checked first; an object name already in the index
  of the bucket is refused; otherwise the bucket stores the object.
\<close>

definition PutObject ::
  "(string \<Rightarrow> string) \<Rightarrow> donut \<Rightarrow> string \<Rightarrow> string \<Rightarrow> string \<Rightarrow> string \<Rightarrow> strmap
     \<Rightarrow> (error + string) \<times> donut" where
  "PutObject md5hex d bucket object expectedMD5Sum reader metadata =
     (if bucket = [] \<or> TrimSpace bucket = [] then (Inl InvalidArgument, d)
      else if object = [] \<or> TrimSpace object = [] then (Inl InvalidArgument, d)
      else (case getDonutBuckets d of
              Some err \<Rightarrow> (Inl err, d)
            | None \<Rightarrow>
                (case buckets d bucket of
                   None \<Rightarrow> (Inl (BucketNotFound bucket), d)
                 | Some b \<Rightarrow>
                     (case bucket_ListObjects b of
                        Inl err \<Rightarrow> (Inl err, d)
                      | Inr objectList \<Rightarrow>
                          if \<exists>objectName \<in> set (map fst objectList). objectName = object
                          then (Inl (ObjectExists object), d)
                          else (let (r, b') =
                                      bucket_PutObject md5hex b object reader expectedMD5Sum metadata
                                in (r, d\<lparr>buckets := (buckets d)(bucket \<mapsto> b')\<rparr>))))))"

definition GetObject :: "donut \<Rightarrow> string \<Rightarrow> string \<Rightarrow> error + (string \<times> int)" where
  "GetObject d bucket object =
     (if bucket = [] \<or> TrimSpace bucket = [] then Inl InvalidArgument
      else if object = [] \<or> TrimSpace object = [] then Inl InvalidArgument
      else (case getDonutBuckets d of
              Some err \<Rightarrow> Inl err
            | None \<Rightarrow>
                (case buckets d bucket of
                   None \<Rightarrow> Inl (BucketNotFound bucket)
                 | Some b \<Rightarrow>
                     (case bucket_ListObjects b of
                        Inl err \<Rightarrow> Inl err
                      | Inr objectList \<Rightarrow>
                          if \<exists>objectName \<in> set (map fst objectList). objectName = object
                          then bucket_GetObject b object
                          else Inl (ObjectNotFound object)))))"

section \<open>The S3 handlers (package api)\<close>

subsection \<open>Requests, responses and the driver interface\<close>

text \<open>The error kinds of package \<open>drivers\<close> the two handlers switch on.\<close>

datatype driver_error =
    drivers_InvalidUploadID
  | drivers_ObjectExists
  | drivers_BadDigest
  | drivers_EntityTooLarge
  | drivers_InvalidDigest
  | drivers_Other string

text \<open>The S3 error codes the two handlers pass to \<open>writeErrorResponse\<close>.\<close>

datatype APIErrorCode =
    InvalidDigest
  | MissingContentLength
  | EntityTooLarge
  | InvalidRequest
  | InvalidPart
  | InvalidPartOrder
  | NoSuchUpload
  | MethodNotAllowed
  | BadDigest
  | InternalError

text \<open>
  What a handler writes to its \<open>http.ResponseWriter\<close>, one value per writing call:
  an error response, the success response with its \<open>ETag\<close> header, or the encoded
  result of a completed upload (bucket, key, ETag).
\<close>

datatype response =
    ErrorResponse APIErrorCode
  | SuccessResponse string
  | CompleteMultipartUploadResult string string string

record Part =
  PartNumber :: int
  ETag :: string

record request =
  vars_bucket :: string
  vars_object :: string
  header_ContentMD5 :: string
  header_ContentLength :: string
  query_uploadId :: string
  query_partNumber :: string
  body :: string

text \<open>The calls a handler makes on \<open>server.driver\<close>, with their arguments.\<close>

datatype driverCall =
    CreateObjectPart_call string string string int string string int string
  | CompleteMultipartUpload_call string string string "int \<rightharpoonup> string"

text \<open>
  The server. The driver is an interface; its two methods act on a driver state
  \<^typ>\<open>'s\<close>. The helpers \<open>isValidOp\<close>, \<open>isValidMD5\<close>, \<open>isMaxObjectSize\<close> and the XML
  decoder are not in the source file and are parameters: \<open>isValidOp\<close> gives what it
  wrote to the response and its verdict; \<open>xmlDecode\<close> gives the decoded part list or
  the decoder's error.
\<close>

record 's minioAPI =
  isValidOp :: "request \<Rightarrow> response list \<times> bool"
  isValidMD5 :: "string \<Rightarrow> bool"
  isMaxObjectSize :: "string \<Rightarrow> bool"
  xmlDecode :: "string \<Rightarrow> string + Part list"
  driver_CreateObjectPart ::
    "'s \<Rightarrow> string \<Rightarrow> string \<Rightarrow> string \<Rightarrow> int \<Rightarrow> string \<Rightarrow> string \<Rightarrow> int \<Rightarrow> string
       \<Rightarrow> (driver_error + string) \<times> 's"
  driver_CompleteMultipartUpload ::
    "'s \<Rightarrow> string \<Rightarrow> string \<Rightarrow> string \<Rightarrow> (int \<rightharpoonup> string) \<Rightarrow> (driver_error + string) \<times> 's"

text \<open>
  One request being served: the responses written so far, the driver calls made so
  far, and the state of the driver.
\<close>

record 's exchange =
  written :: "response list"
  driverCalls :: "driverCall list"
  driverState :: "'s"

definition writeResponse :: "response \<Rightarrow> 's exchange \<Rightarrow> 's exchange" where
  "writeResponse r x = x\<lparr>written := written x @ [r]\<rparr>"

definition writeErrorResponse :: "APIErrorCode \<Rightarrow> 's exchange \<Rightarrow> 's exchange" where
  "writeErrorResponse code x = writeResponse (ErrorResponse code) x"

subsection \<open>Upload part\<close>


subsection \<open>Complete multipart upload\<close>

text \<open>
  Modelled from the spec: the type \<open>completedParts\<close> and its \<open>Less\<close> method are not in
  the source file; the spec's order is ascending by \<open>PartNumber\<close>, so \<open>Less(i, j)\<close>
  compares the part numbers. \<open>sort.IsSorted(completedParts(parts.Part))\<close> then says
  that no part is less than the one before it.
\<close>

fun IsSorted :: "Part list \<Rightarrow> bool" where
  "IsSorted (a # b # rest) = (if PartNumber b < PartNumber a then False else IsSorted (b # rest))"
| "IsSorted [a] = True"
| "IsSorted [] = True"

text \<open>The loop that fills \<open>partMap\<close>: a later part with the same number overwrites.\<close>

definition makePartMap :: "Part list \<Rightarrow> (int \<rightharpoonup> string)" where
  "makePartMap parts = foldl (\<lambda>partMap part. partMap(PartNumber part \<mapsto> ETag part)) Map.empty parts"

definition completeMultipartUploadHandler ::
  "'s minioAPI \<Rightarrow> request \<Rightarrow> 's exchange \<Rightarrow> 's exchange" where
  "completeMultipartUploadHandler server req x0 =
     (let (ws, valid) = isValidOp server req;
          x = x0\<lparr>written := written x0 @ ws\<rparr>
      in if \<not> valid then x
         else (case xmlDecode server (body req) of
                 Inl err \<Rightarrow> writeErrorResponse InternalError x
               | Inr parts \<Rightarrow>
                   if \<not> IsSorted parts then writeErrorResponse InvalidPartOrder x
                   else (let bucket = vars_bucket req;
                             object = vars_object req;
                             uploadID = query_uploadId req;
                             partMap = makePartMap parts;
                             (r, s') = driver_CompleteMultipartUpload server (driverState x)
                                         bucket object uploadID partMap;
                             x1 = x\<lparr>driverCalls := driverCalls x @
                                       [CompleteMultipartUpload_call bucket object uploadID partMap],
                                     driverState := s'\<rparr>
                         in (case r of
                               Inr etag \<Rightarrow>
                                 writeResponse (CompleteMultipartUploadResult bucket object etag) x1
                             | Inl drivers_InvalidUploadID \<Rightarrow> writeErrorResponse NoSuchUpload x1
                             | Inl e \<Rightarrow> writeErrorResponse InternalError x1))))"

section \<open>Auxiliary definitions\<close>


subsection \<open>Example states\<close>

text \<open>Concrete stores, servers and requests at which the theorems are instantiated.\<close>

definition exampleObject :: donutObject where
  "exampleObject = \<lparr>payload = ''hello'', objectMetadata = Map.empty\<rparr>"

definition exampleBucket :: "string list \<Rightarrow> bucket" where
  "exampleBucket names = \<lparr>objectIndex = map (\<lambda>n. (n, exampleObject)) names, listErr = None\<rparr>"

definition exampleStore :: "string list \<Rightarrow> donut" where
  "exampleStore names =
     \<lparr>scanErr = None,
      buckets = [''x'' \<mapsto> exampleBucket names, ''docs'' \<mapsto> exampleBucket []],
      metadataFile = Inr [''x'' \<mapsto> [''acl'' \<mapsto> ''private'', ''owner'' \<mapsto> ''minio''],
                          ''docs'' \<mapsto> [''acl'' \<mapsto> ''public-read'']],
      writeErr = None\<rparr>"

definition brokenStore :: donut where
  "brokenStore =
     \<lparr>scanErr = Some (BackendError ''disk''), buckets = Map.empty,
      metadataFile = Inl (BackendError ''no metadata''), writeErr = None\<rparr>"

definition uninitializedStore :: donut where
  "uninitializedStore =
     \<lparr>scanErr = None, buckets = Map.empty,
      metadataFile = Inl (BackendError ''no metadata''), writeErr = None\<rparr>"

definition exampleServer :: "nat minioAPI" where
  "exampleServer =
     \<lparr>isValidOp = (\<lambda>req. ([], True)),
      isValidMD5 = (\<lambda>md5. True),
      isMaxObjectSize = (\<lambda>sz. False),
      xmlDecode = (\<lambda>b. if b = ''2,1''
                        then Inr [\<lparr>PartNumber = 2, ETag = ''bb''\<rparr>, \<lparr>PartNumber = 1, ETag = ''aa''\<rparr>]
                        else Inl ''malformed''),
      driver_CreateObjectPart =
        (\<lambda>s bucket object uploadID partID contentType md5 sz bytes.
           (Inl drivers_InvalidUploadID, Suc s)),
      driver_CompleteMultipartUpload =
        (\<lambda>s bucket object uploadID partMap. (Inr ''etag'', Suc s))\<rparr>"

definition exampleRequest :: "string \<Rightarrow> string \<Rightarrow> request" where
  "exampleRequest partNumber bytes =
     \<lparr>vars_bucket = ''x'', vars_object = ''k'', header_ContentMD5 = [],
      header_ContentLength = ''5'', query_uploadId = ''u1'', query_partNumber = partNumber,
      body = bytes\<rparr>"

definition newExchange :: "nat exchange" where
  "newExchange = \<lparr>written = [], driverCalls = [], driverState = 0\<rparr>"

section \<open>Auxiliary facts\<close>

subsection \<open>Strings and numbers\<close>

lemma firstRune_EncodeRune:
  assumes "IsSpace r"
  shows "firstRune (EncodeRune r @ rest) = (r, length (EncodeRune r)) \<and> EncodeRune r \<noteq> []"
proof -
  from assms have "r = 0x09 \<or> r = 0x0A \<or> r = 0x0B \<or> r = 0x0C \<or> r = 0x0D \<or> r = 0x20
      \<or> r = 0x85 \<or> r = 0xA0 \<or> r = 0x1680
      \<or> r = 0x2000 \<or> r = 0x2001 \<or> r = 0x2002 \<or> r = 0x2003 \<or> r = 0x2004 \<or> r = 0x2005
      \<or> r = 0x2006 \<or> r = 0x2007 \<or> r = 0x2008 \<or> r = 0x2009 \<or> r = 0x200A
      \<or> r = 0x2028 \<or> r = 0x2029 \<or> r = 0x202F \<or> r = 0x205F \<or> r = 0x3000"
    unfolding IsSpace_def by (simp split: if_splits) arith
  then show ?thesis
    by (elim disjE)
       (simp_all add: firstRune_def EncodeRune_def DecodeRuneInString_def RuneError_def Let_def)
qed

lemma TrimLeftFunc_spaces:
  "\<forall>r\<in>set rs. IsSpace r \<Longrightarrow> TrimLeftFunc (concat (map EncodeRune rs)) = []"
proof (induction rs)
  case Nil
  show ?case by (subst TrimLeftFunc.simps) simp
next
  case (Cons r rs)
  then have sp: "IsSpace r" and rest: "TrimLeftFunc (concat (map EncodeRune rs)) = []"
    by simp_all
  from firstRune_EncodeRune[OF sp, of "concat (map EncodeRune rs)"]
  have f: "firstRune (EncodeRune r @ concat (map EncodeRune rs)) = (r, length (EncodeRune r))"
    and ne: "EncodeRune r \<noteq> []"
    by simp_all
  show ?case
    by (subst TrimLeftFunc.simps) (simp add: f ne sp rest)
qed

lemma TrimRightFunc_Nil: "TrimRightFunc [] = []"
  by (simp add: TrimRightFunc_def)

lemma blank_TrimSpace: "blank s \<Longrightarrow> TrimSpace s = []"
  by (auto simp add: blank_def TrimSpace_def TrimLeftFunc_spaces TrimRightFunc_Nil)

lemma Index_nonneg_decomp:
  "0 \<le> Index s sep \<Longrightarrow> \<exists>a b. s = a @ sep @ b \<and> length a = nat (Index s sep)"
proof (induction s)
  case Nil
  then show ?case by (simp split: if_splits)
next
  case (Cons c cs)
  show ?case
  proof (cases "prefix sep (c # cs)")
    case True
    then obtain b where b: "c # cs = sep @ b" by (auto simp add: prefix_def)
    from True have "Index (c # cs) sep = 0" by simp
    with b show ?thesis by (intro exI[of _ "[]"] exI[of _ b]) simp
  next
    case False
    with Cons.prems have nn: "0 \<le> Index cs sep" and eq: "Index (c # cs) sep = Index cs sep + 1"
      by (auto simp add: Let_def split: if_splits)
    from Cons.IH[OF nn] obtain a b where "cs = a @ sep @ b" "length a = nat (Index cs sep)"
      by blast
    with nn eq show ?thesis
      by (intro exI[of _ "c # a"] exI[of _ b]) (simp add: nat_add_distrib)
  qed
qed

lemma Index_occurs: "0 \<le> Index (a @ sep @ b) sep"
proof (induction a)
  case Nil
  have p: "prefix sep (sep @ b)" by simp
  show ?case
  proof (cases "sep @ b")
    case Nil
    then show ?thesis by simp
  next
    case (Cons x xs)
    with p show ?thesis by simp
  qed
next
  case (Cons c a)
  then show ?case by (simp add: Let_def)
qed

lemma extractDir_suffix:
  assumes "Contains n delim"
  shows "suffix delim (take (nat (Index n delim + int (length delim))) n)"
    and "Contains (take (nat (Index n delim + int (length delim))) n) delim"
proof -
  from assms have nn: "0 \<le> Index n delim" by (simp add: Contains_def)
  from Index_nonneg_decomp[OF nn] obtain a b where
    n: "n = a @ delim @ b" and la: "length a = nat (Index n delim)" by blast
  have "nat (Index n delim + int (length delim)) = length a + length delim"
    using nn la by (simp add: nat_add_distrib)
  then have t: "take (nat (Index n delim + int (length delim))) n = a @ delim"
    using n by simp
  show "suffix delim (take (nat (Index n delim + int (length delim))) n)"
    unfolding t by (simp add: suffix_def)
  show "Contains (take (nat (Index n delim + int (length delim))) n) delim"
    unfolding t Contains_def using Index_occurs[of a delim "[]"] by simp
qed


lemma Atoi_examples:
  "Atoi ''abc'' = (0, Some ErrSyntax)
   \<and> Atoi ''9223372036854775808'' = (9223372036854775807, Some ErrRange)
   \<and> Atoi ''-9223372036854775809'' = (- 9223372036854775808, Some ErrRange)
   \<and> Atoi ''99999999999999999999x'' = (9223372036854775807, Some ErrRange)"
  by code_simp

lemma TrimSpace_examples:
  "TrimSpace ''  a b  '' = ''a b''
   \<and> TrimSpace [CHR 0xC2, CHR 0xA0] = []
   \<and> TrimSpace [CHR 0xE3, CHR 0x80, CHR 0x80, CHR ''a'', CHR 0xC2, CHR 0x85] = ''a''
   \<and> TrimSpace [CHR 0xA0] = [CHR 0xA0]"
  by code_simp

lemma IsSorted_iff: "IsSorted parts \<longleftrightarrow> sorted (map PartNumber parts)"
  by (induction parts rule: IsSorted.induct) auto

subsection \<open>The listing loops\<close>

lemma appendUniq_length: "length (appendUniq xs s) \<le> Suc (length xs)"
  by (simp add: appendUniq_def)

lemma set_appendUniq: "set (appendUniq xs s) = insert s (set xs)"
  by (auto simp add: appendUniq_def)

lemma collectResults_length:
  assumes "int (length results) \<le> maxkeys"
  shows "int (length (fst (collectResults maxkeys pfx xs results))) \<le> maxkeys
         \<and> (snd (collectResults maxkeys pfx xs results)
              \<longrightarrow> int (length (fst (collectResults maxkeys pfx xs results))) = maxkeys)"
  using assms
proof (induction xs arbitrary: results)
  case Nil
  then show ?case by simp
next
  case (Cons x xs)
  show ?case
  proof (cases "maxkeys \<le> int (length results)")
    case True
    with Cons.prems show ?thesis by simp
  next
    case False
    have "length (appendUniq results (pfx @ x)) \<le> Suc (length results)"
      by (rule appendUniq_length)
    with False have "int (length (appendUniq results (pfx @ x))) \<le> maxkeys"
      by linarith
    from Cons.IH[OF this] False show ?thesis by simp
  qed
qed

lemma collectResults_set:
  "set (fst (collectResults maxkeys pfx xs results)) \<subseteq> set results \<union> (\<lambda>n. pfx @ n) ` set xs"
proof (induction xs arbitrary: results)
  case Nil
  then show ?case by simp
next
  case (Cons x xs)
  show ?case
  proof (cases "maxkeys \<le> int (length results)")
    case True
    then show ?thesis by auto
  next
    case False
    with Cons.IH[of "appendUniq results (pfx @ x)"] show ?thesis
      by (auto simp add: set_appendUniq)
  qed
qed

lemma set_foldl_appendUniq:
  "set (foldl (\<lambda>acc cp. appendUniq acc (f cp)) acc xs) = set acc \<union> f ` set xs"
  by (induction xs arbitrary: acc) (auto simp add: set_appendUniq)

lemma set_uniqueObjects: "set (uniqueObjects xs) = set xs"
  using set_foldl_appendUniq[of "\<lambda>x. x" "[]" xs] by (simp add: uniqueObjects_def)

lemma ListObjects_Inr:
  assumes "ListObjects d bucket pfx marker delimiter maxkeys0 = Inr (keys, cps, tr)"
  obtains maxkeys objs newObjs prefixes where
    "keys = sort (fst (collectResults maxkeys pfx newObjs []))"
    and "tr = snd (collectResults maxkeys pfx newObjs [])"
    and "cps = sort (foldl (\<lambda>acc commonPrefix. appendUniq acc (pfx @ commonPrefix)) [] prefixes)"
    and "maxkeys = (if maxkeys0 \<le> 0 then 1000 else maxkeys0)"
    and "set newObjs \<subseteq> set objs"
    and "marker \<noteq> [] \<longrightarrow> (\<forall>n\<in>set newObjs. marker < n)"
    and "TrimSpace delimiter \<noteq> [] \<longrightarrow> (\<forall>n\<in>set objs. \<not> Contains n delimiter)"
    and "\<forall>c\<in>set prefixes. TrimSpace delimiter \<noteq> [] \<and>
           (\<exists>n. Contains n delimiter
               \<and> c = take (nat (Index n delimiter + int (length delimiter))) n)"
proof -
  from assms obtain b objectList where
    g: "getDonutBuckets d = None" and b: "buckets d bucket = Some b"
    and l: "bucket_ListObjects b = Inr objectList"
    by (auto simp add: ListObjects_def split: option.splits sum.splits)
  define names where
    "names = (if TrimSpace pfx \<noteq> []
              then removePrefix (filterPrefix (map fst objectList) pfx) pfx
              else map fst objectList)"
  define objs where
    "objs = (if TrimSpace delimiter \<noteq> [] then filterDelimited names delimiter else names)"
  define prefixes where
    "prefixes = (if TrimSpace delimiter \<noteq> []
                 then uniqueObjects (extractDir (filterNotDelimited names delimiter) delimiter)
                 else [])"
  define newObjs where
    "newObjs = (if marker \<noteq> [] then filter (\<lambda>objectName. marker < objectName) (sort objs)
                else sort objs)"
  define maxkeys where "maxkeys = (if maxkeys0 \<le> 0 then 1000 else maxkeys0)"
  have eq: "ListObjects d bucket pfx marker delimiter maxkeys0 =
     Inr (sort (fst (collectResults maxkeys pfx newObjs [])),
          sort (foldl (\<lambda>acc commonPrefix. appendUniq acc (pfx @ commonPrefix)) [] prefixes),
          snd (collectResults maxkeys pfx newObjs []))"
    unfolding maxkeys_def newObjs_def prefixes_def objs_def names_def
    by (simp only: ListObjects_def g b l option.case sum.case Let_def case_prod_beta)
  from assms[unfolded eq] have
    k: "keys = sort (fst (collectResults maxkeys pfx newObjs []))"
    and t: "tr = snd (collectResults maxkeys pfx newObjs [])"
    and c: "cps = sort (foldl (\<lambda>acc commonPrefix. appendUniq acc (pfx @ commonPrefix)) [] prefixes)"
    by (simp_all only: sum.inject prod.inject)
  have sub: "set newObjs \<subseteq> set objs"
    by (simp add: newObjs_def)
  have mk: "marker \<noteq> [] \<longrightarrow> (\<forall>n\<in>set newObjs. marker < n)"
    by (simp add: newObjs_def)
  have nd: "TrimSpace delimiter \<noteq> [] \<longrightarrow> (\<forall>n\<in>set objs. \<not> Contains n delimiter)"
    by (simp add: objs_def filterDelimited_def)
  have pf: "\<forall>c\<in>set prefixes. TrimSpace delimiter \<noteq> [] \<and>
           (\<exists>n. Contains n delimiter
               \<and> c = take (nat (Index n delimiter + int (length delimiter))) n)"
  proof (cases "TrimSpace delimiter \<noteq> []")
    case True
    then have "set prefixes = set (extractDir (filterNotDelimited names delimiter) delimiter)"
      by (simp add: prefixes_def set_uniqueObjects)
    with True show ?thesis
      by (auto simp add: extractDir_def filterNotDelimited_def)
  next
    case False
    then show ?thesis by (simp add: prefixes_def)
  qed
  from k t c maxkeys_def sub mk nd pf show thesis
    by (rule that)
qed

subsection \<open>Bucket metadata and objects\<close>

lemma SetBucketMetadata_state:
  "(fst (SetBucketMetadata d bucket bm) \<noteq> Returns None \<and> snd (SetBucketMetadata d bucket bm) = d)
   \<or> (\<exists>m old. metadataFile d = Inr m \<and> m bucket = Some old
         \<and> fst (SetBucketMetadata d bucket bm) = Returns None
         \<and> snd (SetBucketMetadata d bucket bm)
             = d\<lparr>metadataFile := Inr (m(bucket \<mapsto> old(''acl'' \<mapsto> mapIndex bm ''acl'')))\<rparr>)"
  by (auto simp add: SetBucketMetadata_def setDonutBucketMetadata_def getDonutBucketMetadata_def
      Let_def split: option.splits sum.splits)

lemma PutObject_success:
  assumes "PutObject md5hex d bucket object e1 r1 m1 = (Inr md5sum, d')"
  shows "bucket \<noteq> [] \<and> TrimSpace bucket \<noteq> [] \<and> object \<noteq> [] \<and> TrimSpace object \<noteq> []
       \<and> getDonutBuckets d' = None
       \<and> (\<exists>b'. buckets d' bucket = Some b' \<and> listErr b' = None
              \<and> object \<in> set (map fst (objectIndex b')))"
  using assms
  by (auto simp add: PutObject_def bucket_PutObject_def bucket_ListObjects_def
      getDonutBuckets_def Let_def split: option.splits sum.splits if_splits)

section \<open>The claims\<close>

text \<open>
  Claim C1: \<open>SetBucketMetadata\<close> on a bucket that does not exist should fail with
  \<open>BucketNotFound\<close>. It does not: in a store that has no bucket \<open>photos\<close> the call
  panics on the assignment to the nil map, where \<open>GetBucketMetadata\<close>, which looks the
  bucket up first, returns \<open>BucketNotFound\<close>.
\<close>

theorem SetBucketMetadata_absent_bucket_panics:
  "SetBucketMetadata (exampleStore []) ''photos'' [''acl'' \<mapsto> ''public-read'']
     = (Panic, exampleStore [])
   \<and> GetBucketMetadata (exampleStore []) ''photos'' = Inl (BucketNotFound ''photos'')"
  by (simp add: SetBucketMetadata_def GetBucketMetadata_def getDonutBuckets_def
      getDonutBucketMetadata_def exampleStore_def)

text \<open>
  Claim C2, as amended: in a successful \<open>ListObjects\<close> with a non-empty marker every
  returned key is the prefix followed by a name that is strictly greater than the
  marker in byte order (the marker is compared with the name after the prefix is
  stripped); with the empty prefix no returned key is less than or equal to the
  marker. This holds for every delimiter and every \<open>maxkeys\<close>.
\<close>

theorem ListObjects_marker_strict:
  assumes "ListObjects d bucket pfx marker delimiter maxkeys0 = Inr (keys, cps, tr)"
    and "marker \<noteq> []"
  shows "(\<forall>k\<in>set keys. \<exists>n. k = pfx @ n \<and> marker < n)
       \<and> (pfx = [] \<longrightarrow> (\<forall>k\<in>set keys. \<not> k \<le> marker))"
proof -
  from assms(1) obtain maxkeys newObjs where
    keys: "keys = sort (fst (collectResults maxkeys pfx newObjs []))"
    and gt: "marker \<noteq> [] \<longrightarrow> (\<forall>n\<in>set newObjs. marker < n)"
    by (rule ListObjects_Inr) blast
  have main: "\<forall>k\<in>set keys. \<exists>n. k = pfx @ n \<and> marker < n"
  proof
    fix k assume "k \<in> set keys"
    with keys have "k \<in> set (fst (collectResults maxkeys pfx newObjs []))"
      by simp
    with collectResults_set[of maxkeys pfx newObjs "[]"] gt assms(2)
    show "\<exists>n. k = pfx @ n \<and> marker < n" by auto
  qed
  then have "pfx = [] \<longrightarrow> (\<forall>k\<in>set keys. \<not> k \<le> marker)" by auto
  with main show ?thesis by blast
qed

theorem ListObjects_marker_strict_witness:
  "ListObjects (exampleStore [''k4'', ''k1'', ''k3'', ''k2'']) ''x'' [] ''k2'' [] 1000
     = Inr ([''k3'', ''k4''], [], False)
   \<and> \<not> ''k3'' \<le> ''k2'' \<and> \<not> ''k4'' \<le> ''k2''"
proof -
  have ev: "ListObjects (exampleStore [''k4'', ''k1'', ''k3'', ''k2'']) ''x'' [] ''k2'' [] 1000
     = Inr ([''k3'', ''k4''], [], False)"
    by code_simp
  have m: "''k2'' \<noteq> []" by simp
  from ListObjects_marker_strict[OF ev m] ev show ?thesis by simp
qed

text \<open>
  The claim as stated fails with a prefix: the key \<open>a/z\<close> is returned for prefix \<open>a/\<close>
  and marker \<open>b\<close>, and \<open>a/z\<close> is less than \<open>b\<close>.
\<close>

theorem ListObjects_marker_prefix_counterexample:
  "ListObjects (exampleStore [''a/z'']) ''x'' ''a/'' ''b'' [] 1000 = Inr ([''a/z''], [], False)
   \<and> ''a/z'' \<le> ''b'' \<and> ''b'' \<noteq> []"
  by code_simp

text \<open>
  Claim C3, as amended: \<open>ListBuckets\<close> returns an error only when loading the buckets
  (\<open>getDonutBuckets\<close>) fails, and then it returns that error; otherwise it returns a
  mapping and no error, the stored metadata or, when the metadata cannot be read (a
  store never written), the empty mapping.
\<close>

theorem ListBuckets_errors_only_from_scan:
  "(getDonutBuckets d = None \<longrightarrow>
      (\<exists>m. ListBuckets d = Inr m)
      \<and> (\<forall>e. getDonutBucketMetadata d = Inl e \<longrightarrow> ListBuckets d = Inr Map.empty)
      \<and> (\<forall>m. getDonutBucketMetadata d = Inr m \<longrightarrow> ListBuckets d = Inr m))
   \<and> (\<forall>e. getDonutBuckets d = Some e \<longrightarrow> ListBuckets d = Inl e)"
  by (auto simp add: ListBuckets_def split: option.splits sum.splits)

theorem ListBuckets_errors_only_from_scan_witness:
  "ListBuckets uninitializedStore = Inr Map.empty
   \<and> ListBuckets brokenStore = Inl (BackendError ''disk'')"
proof -
  have a: "getDonutBuckets uninitializedStore = None"
    by (simp add: getDonutBuckets_def uninitializedStore_def)
  have b: "getDonutBucketMetadata uninitializedStore = Inl (BackendError ''no metadata'')"
    by (simp add: getDonutBucketMetadata_def uninitializedStore_def)
  have c: "getDonutBuckets brokenStore = Some (BackendError ''disk'')"
    by (simp add: getDonutBuckets_def brokenStore_def)
  from ListBuckets_errors_only_from_scan[of uninitializedStore]
       ListBuckets_errors_only_from_scan[of brokenStore] a b c
  show ?thesis by simp
qed

text \<open>The claim as stated fails on a store whose buckets cannot be loaded.\<close>

theorem ListBuckets_scan_error_counterexample:
  "ListBuckets brokenStore = Inl (BackendError ''disk'')"
  by (simp add: ListBuckets_def getDonutBuckets_def brokenStore_def)

text \<open>
  Claim C4: a successful \<open>ListObjects\<close> with \<open>maxKeys = K > 0\<close> returns at most \<open>K\<close>
  keys, and exactly \<open>K\<close> keys whenever it reports the listing as truncated.
\<close>

theorem ListObjects_maxKeys_bound:
  assumes "ListObjects d bucket pfx marker delimiter K = Inr (keys, cps, tr)" and "0 < K"
  shows "int (length keys) \<le> K \<and> (tr \<longrightarrow> int (length keys) = K)"
proof -
  from assms(1) obtain maxkeys newObjs where
    keys: "keys = sort (fst (collectResults maxkeys pfx newObjs []))"
    and tr: "tr = snd (collectResults maxkeys pfx newObjs [])"
    and mk: "maxkeys = (if K \<le> 0 then 1000 else K)"
    by (rule ListObjects_Inr) blast
  from assms(2) mk have K: "maxkeys = K" by simp
  from assms(2) have start: "int (length ([] :: string list)) \<le> K" by simp
  show ?thesis
    unfolding keys tr K using collectResults_length[OF start] by simp
qed

theorem ListObjects_maxKeys_bound_witness:
  "ListObjects (exampleStore [''k4'', ''k1'', ''k3'', ''k2'']) ''x'' [] ''k2'' [] 1
     = Inr ([''k3''], [], True)
   \<and> int (length [''k3'']) = 1"
proof -
  have ev: "ListObjects (exampleStore [''k4'', ''k1'', ''k3'', ''k2'']) ''x'' [] ''k2'' [] 1
     = Inr ([''k3''], [], True)"
    by code_simp
  from ListObjects_maxKeys_bound[OF ev] ev show ?thesis by simp
qed

text \<open>
  Claim C5: in a successful \<open>ListObjects\<close> with prefix \<open>p\<close> every returned key starts
  with \<open>p\<close>, every returned common prefix ends with the delimiter, and no string is
  both a returned key and a returned common prefix. (It holds for every delimiter;
  with a blank one there are no common prefixes.)
\<close>

theorem ListObjects_prefix_delimiter:
  assumes "ListObjects d bucket pfx marker delimiter maxkeys0 = Inr (keys, cps, tr)"
  shows "(\<forall>k\<in>set keys. HasPrefix k pfx) \<and> (\<forall>c\<in>set cps. suffix delimiter c)
       \<and> set keys \<inter> set cps = {}"
proof -
  from assms obtain maxkeys objs newObjs prefixes where
    keys: "keys = sort (fst (collectResults maxkeys pfx newObjs []))"
    and cps: "cps = sort (foldl (\<lambda>acc commonPrefix. appendUniq acc (pfx @ commonPrefix)) [] prefixes)"
    and sub: "set newObjs \<subseteq> set objs"
    and nd: "TrimSpace delimiter \<noteq> [] \<longrightarrow> (\<forall>n\<in>set objs. \<not> Contains n delimiter)"
    and pf: "\<forall>c\<in>set prefixes. TrimSpace delimiter \<noteq> [] \<and>
           (\<exists>n. Contains n delimiter
               \<and> c = take (nat (Index n delimiter + int (length delimiter))) n)"
    by (rule ListObjects_Inr) blast
  have keys_form: "\<exists>n \<in> set objs. k = pfx @ n" if "k \<in> set keys" for k
  proof -
    from that keys have "k \<in> set (fst (collectResults maxkeys pfx newObjs []))"
      by simp
    with collectResults_set[of maxkeys pfx newObjs "[]"] sub
    show ?thesis by auto
  qed
  have cps_form: "TrimSpace delimiter \<noteq> [] \<and>
      (\<exists>n. Contains n delimiter
         \<and> c = pfx @ take (nat (Index n delimiter + int (length delimiter))) n)"
    if "c \<in> set cps" for c
  proof -
    from that cps obtain e where "e \<in> set prefixes" "c = pfx @ e"
      by (auto simp add: set_foldl_appendUniq)
    with pf show ?thesis by blast
  qed
  have p1: "\<forall>k\<in>set keys. HasPrefix k pfx"
  proof
    fix k assume "k \<in> set keys"
    from keys_form[OF this] obtain n where "k = pfx @ n" by blast
    then show "HasPrefix k pfx" by (simp add: HasPrefix_def)
  qed
  have p2: "\<forall>c\<in>set cps. suffix delimiter c"
  proof
    fix c assume "c \<in> set cps"
    from cps_form[OF this] obtain n where "Contains n delimiter"
      and c: "c = pfx @ take (nat (Index n delimiter + int (length delimiter))) n"
      by blast
    from extractDir_suffix(1)[OF this(1)] show "suffix delimiter c"
      unfolding c by (rule suffix_appendI)
  qed
  have p3: "set keys \<inter> set cps = {}"
  proof (rule ccontr)
    assume "set keys \<inter> set cps \<noteq> {}"
    then obtain k where k: "k \<in> set keys" and c: "k \<in> set cps" by blast
    from cps_form[OF c] obtain n where d: "TrimSpace delimiter \<noteq> []" and n: "Contains n delimiter"
      and kc: "k = pfx @ take (nat (Index n delimiter + int (length delimiter))) n"
      by blast
    from keys_form[OF k] obtain m where m: "m \<in> set objs" and km: "k = pfx @ m" by blast
    from kc km have "m = take (nat (Index n delimiter + int (length delimiter))) n" by simp
    with extractDir_suffix(2)[OF n] have "Contains m delimiter" by simp
    moreover from m nd d have "\<not> Contains m delimiter" by blast
    ultimately show False by contradiction
  qed
  from p1 p2 p3 show ?thesis by blast
qed

theorem ListObjects_prefix_delimiter_witness:
  "ListObjects (exampleStore [''p/a/1'', ''p/a/2'', ''p/b'', ''p/c/d/e'', ''q'']) ''x'' ''p/'' [] ''/'' 1000
     = Inr ([''p/b''], [''p/a/'', ''p/c/''], False)
   \<and> HasPrefix ''p/b'' ''p/'' \<and> suffix ''/'' ''p/a/'' \<and> suffix ''/'' ''p/c/''
   \<and> set [''p/b''] \<inter> set [''p/a/'', ''p/c/''] = {}"
proof -
  have ev: "ListObjects (exampleStore [''p/a/1'', ''p/a/2'', ''p/b'', ''p/c/d/e'', ''q'']) ''x'' ''p/'' [] ''/'' 1000
     = Inr ([''p/b''], [''p/a/'', ''p/c/''], False)"
    by code_simp
  from ListObjects_prefix_delimiter[OF ev] ev show ?thesis by simp
qed

text \<open>
  Claim C6: after \<open>PutObject(b, k, ...)\<close> has succeeded, a second \<open>PutObject(b, k, ...)\<close>,
  whatever its digest, bytes and metadata, fails with \<open>ObjectExists\<close> and leaves the
  store as it is.
\<close>

theorem PutObject_twice_ObjectExists:
  assumes "PutObject md5hex d bucket object e1 r1 m1 = (Inr md5sum, d')"
  shows "PutObject md5hex d' bucket object e2 r2 m2 = (Inl (ObjectExists object), d')"
proof -
  from PutObject_success[OF assms] obtain b' where
    args: "bucket \<noteq> []" "TrimSpace bucket \<noteq> []" "object \<noteq> []" "TrimSpace object \<noteq> []"
    and scan: "getDonutBuckets d' = None"
    and b': "buckets d' bucket = Some b'" "listErr b' = None"
    and mem: "object \<in> set (map fst (objectIndex b'))"
    by blast
  from b' have "bucket_ListObjects b' = Inr (objectIndex b')"
    by (simp add: bucket_ListObjects_def)
  with args scan b' mem show ?thesis
    by (simp add: PutObject_def)
qed

theorem PutObject_twice_ObjectExists_witness:
  "fst (PutObject (\<lambda>bytes. ''5d41'') (exampleStore []) ''x'' ''k'' [] ''hello'' Map.empty) = Inr ''5d41''
   \<and> fst (PutObject (\<lambda>bytes. ''5d41'')
            (snd (PutObject (\<lambda>bytes. ''5d41'') (exampleStore []) ''x'' ''k'' [] ''hello'' Map.empty))
            ''x'' ''k'' [] ''other'' Map.empty) = Inl (ObjectExists ''k'')"
proof -
  have first: "fst (PutObject (\<lambda>bytes. ''5d41'') (exampleStore []) ''x'' ''k'' [] ''hello'' Map.empty)
                 = Inr ''5d41''"
    by code_simp
  then have "PutObject (\<lambda>bytes. ''5d41'') (exampleStore []) ''x'' ''k'' [] ''hello'' Map.empty
      = (Inr ''5d41'',
         snd (PutObject (\<lambda>bytes. ''5d41'') (exampleStore []) ''x'' ''k'' [] ''hello'' Map.empty))"
    by (metis prod.collapse)
  from PutObject_twice_ObjectExists[OF this, of "[]" "''other''" Map.empty] first
  show ?thesis by simp
qed

text \<open>
  Claim C7: when the decoded part list of a CompleteMultipartUpload request is not
  sorted ascending by \<open>PartNumber\<close>, the handler makes no driver call and leaves the
  state of the driver (its objects and uploads) as it was; when the operation is
  allowed, so that the body is decoded, it writes \<open>InvalidPartOrder\<close> and nothing
  after it.
\<close>

theorem completeMultipartUploadHandler_unsorted:
  assumes "xmlDecode server (body req) = Inr parts"
    and "\<not> sorted (map PartNumber parts)"
  shows "driverCalls (completeMultipartUploadHandler server req x0) = driverCalls x0
       \<and> driverState (completeMultipartUploadHandler server req x0) = driverState x0
       \<and> (snd (isValidOp server req) \<longrightarrow>
            written (completeMultipartUploadHandler server req x0)
              = written x0 @ fst (isValidOp server req) @ [ErrorResponse InvalidPartOrder])"
proof -
  from assms(2) have unsorted: "\<not> IsSorted parts" by (simp add: IsSorted_iff)
  obtain ws valid where v: "isValidOp server req = (ws, valid)" by (cases "isValidOp server req")
  show ?thesis
  proof (cases valid)
    case True
    with v unsorted assms(1) have "completeMultipartUploadHandler server req x0
        = writeErrorResponse InvalidPartOrder (x0\<lparr>written := written x0 @ ws\<rparr>)"
      by (simp add: completeMultipartUploadHandler_def)
    with v show ?thesis
      by (simp add: writeErrorResponse_def writeResponse_def)
  next
    case False
    with v have "completeMultipartUploadHandler server req x0 = x0\<lparr>written := written x0 @ ws\<rparr>"
      by (simp add: completeMultipartUploadHandler_def)
    with v False show ?thesis by simp
  qed
qed

theorem completeMultipartUploadHandler_unsorted_witness:
  "completeMultipartUploadHandler exampleServer (exampleRequest [] ''2,1'') newExchange
     = \<lparr>written = [ErrorResponse InvalidPartOrder], driverCalls = [], driverState = 0\<rparr>"
proof -
  have v: "isValidOp exampleServer (exampleRequest [] ''2,1'') = ([], True)"
    by (simp add: exampleServer_def)
  have p: "xmlDecode exampleServer (body (exampleRequest [] ''2,1''))
             = Inr [\<lparr>PartNumber = 2, ETag = ''bb''\<rparr>, \<lparr>PartNumber = 1, ETag = ''aa''\<rparr>]"
    by (simp add: exampleServer_def exampleRequest_def)
  have u: "\<not> sorted (map PartNumber [\<lparr>PartNumber = 2, ETag = ''bb''\<rparr>, \<lparr>PartNumber = 1, ETag = ''aa''\<rparr>])"
    by simp
  from completeMultipartUploadHandler_unsorted[OF p u, of newExchange] v
  show ?thesis by (simp add: newExchange_def)
qed

text \<open>
  Claim C8: \<open>SetBucketMetadata\<close> changes only the \<open>"acl"\<close> entry of the metadata of
  its bucket: the metadata of every other bucket is unchanged; for a bucket that has
  metadata every other entry keeps its value, and when the call returns no error the
  \<open>"acl"\<close> entry is the input's; the result depends on the input only through its
  \<open>"acl"\<close> entry; the index of buckets is unchanged.
\<close>

theorem SetBucketMetadata_only_acl:
  "(\<forall>b. b \<noteq> bucket \<longrightarrow>
      storedMetadata (snd (SetBucketMetadata d bucket bm)) b = storedMetadata d b)
   \<and> (\<forall>old. storedMetadata d bucket = Some old \<longrightarrow>
        (\<exists>new. storedMetadata (snd (SetBucketMetadata d bucket bm)) bucket = Some new
           \<and> (\<forall>k. k \<noteq> ''acl'' \<longrightarrow> new k = old k)
           \<and> (fst (SetBucketMetadata d bucket bm) = Returns None
                 \<longrightarrow> new ''acl'' = Some (mapIndex bm ''acl''))))
   \<and> (\<forall>bm'. mapIndex bm' ''acl'' = mapIndex bm ''acl'' \<longrightarrow>
        SetBucketMetadata d bucket bm' = SetBucketMetadata d bucket bm)
   \<and> buckets (snd (SetBucketMetadata d bucket bm)) = buckets d"
proof -
  note st = SetBucketMetadata_state[of d bucket bm]
  have others: "\<forall>b. b \<noteq> bucket \<longrightarrow>
      storedMetadata (snd (SetBucketMetadata d bucket bm)) b = storedMetadata d b"
    using st by (auto simp add: storedMetadata_def)
  have this_bucket: "\<forall>old. storedMetadata d bucket = Some old \<longrightarrow>
        (\<exists>new. storedMetadata (snd (SetBucketMetadata d bucket bm)) bucket = Some new
           \<and> (\<forall>k. k \<noteq> ''acl'' \<longrightarrow> new k = old k)
           \<and> (fst (SetBucketMetadata d bucket bm) = Returns None
                 \<longrightarrow> new ''acl'' = Some (mapIndex bm ''acl'')))"
    using st by (auto simp add: storedMetadata_def)
  have input: "\<forall>bm'. mapIndex bm' ''acl'' = mapIndex bm ''acl'' \<longrightarrow>
      SetBucketMetadata d bucket bm' = SetBucketMetadata d bucket bm"
    by (simp add: SetBucketMetadata_def Let_def split: option.splits sum.splits)
  have index: "buckets (snd (SetBucketMetadata d bucket bm)) = buckets d"
    using st by auto
  from others this_bucket input index show ?thesis by blast
qed

theorem SetBucketMetadata_only_acl_witness:
  "storedMetadata (snd (SetBucketMetadata (exampleStore []) ''x''
        [''acl'' \<mapsto> ''public-read'', ''owner'' \<mapsto> ''eve''])) ''docs''
     = storedMetadata (exampleStore []) ''docs''
   \<and> (\<exists>new. storedMetadata (snd (SetBucketMetadata (exampleStore []) ''x''
        [''acl'' \<mapsto> ''public-read'', ''owner'' \<mapsto> ''eve''])) ''x'' = Some new
         \<and> new ''owner'' = Some ''minio'')"
proof -
  define old :: strmap where "old = [''acl'' \<mapsto> ''private'', ''owner'' \<mapsto> ''minio'']"
  have e: "storedMetadata (exampleStore []) ''x'' = Some old"
    by (simp add: storedMetadata_def exampleStore_def old_def)
  have o: "old ''owner'' = Some ''minio''"
    by (simp add: old_def)
  note t = SetBucketMetadata_only_acl[of "''x''" "exampleStore []"
      "[''acl'' \<mapsto> ''public-read'', ''owner'' \<mapsto> ''eve'']"]
  from t have a: "\<forall>b. b \<noteq> ''x'' \<longrightarrow>
      storedMetadata (snd (SetBucketMetadata (exampleStore []) ''x''
        [''acl'' \<mapsto> ''public-read'', ''owner'' \<mapsto> ''eve''])) b
      = storedMetadata (exampleStore []) b"
    by (rule conjunct1)
  have ne: "''docs'' \<noteq> ''x''" by simp
  from a ne have first: "storedMetadata (snd (SetBucketMetadata (exampleStore []) ''x''
        [''acl'' \<mapsto> ''public-read'', ''owner'' \<mapsto> ''eve''])) ''docs''
     = storedMetadata (exampleStore []) ''docs''"
    by blast
  from t e obtain new where
    n: "storedMetadata (snd (SetBucketMetadata (exampleStore []) ''x''
        [''acl'' \<mapsto> ''public-read'', ''owner'' \<mapsto> ''eve''])) ''x'' = Some new"
    and k: "\<forall>k. k \<noteq> ''acl'' \<longrightarrow> new k = old k"
    by blast
  have "''owner'' \<noteq> ''acl''" by simp
  with k o have "new ''owner'' = Some ''minio''" by metis
  with first n show ?thesis by blast
qed




text \<open>
  Claim C10: \<open>GetObject\<close> with a bucket or an object name that is empty or consists
  of white space only (Unicode white space, as \<open>strings.TrimSpace\<close> reads it) returns
  \<open>InvalidArgument\<close>, whatever the store holds: the buckets are not loaded and no
  index is read.
\<close>

theorem GetObject_blank_InvalidArgument:
  assumes "blank bucket \<or> blank object"
  shows "GetObject d bucket object = Inl InvalidArgument"
proof -
  from assms have "TrimSpace bucket = [] \<or> TrimSpace object = []"
    by (auto dest: blank_TrimSpace)
  then show ?thesis
    by (auto simp add: GetObject_def)
qed

theorem GetObject_blank_InvalidArgument_witness:
  "GetObject brokenStore ''  '' ''obj'' = Inl InvalidArgument
   \<and> GetObject (exampleStore [''obj'']) ''x'' [] = Inl InvalidArgument
   \<and> GetObject (exampleStore [''obj'']) [CHR 0xC2, CHR 0xA0] ''obj'' = Inl InvalidArgument"
proof -
  have sp: "IsSpace 0x20" and nb: "IsSpace 0xA0"
    by (simp_all add: IsSpace_def)
  have "''  '' = concat (map EncodeRune [0x20, 0x20])"
    by code_simp
  with sp have b1: "blank ''  ''"
    unfolding blank_def by (intro exI[of _ "[0x20, 0x20]"]) simp
  have b2: "blank []"
    unfolding blank_def by (intro exI[of _ "[]"]) simp
  have "[CHR 0xC2, CHR 0xA0] = concat (map EncodeRune [0xA0])"
    by code_simp
  with nb have b3: "blank [CHR 0xC2, CHR 0xA0]"
    unfolding blank_def by (intro exI[of _ "[0xA0]"]) simp
  from GetObject_blank_InvalidArgument[of "''  ''" "''obj''" brokenStore]
       GetObject_blank_InvalidArgument[of "''x''" "[]" "exampleStore [''obj'']"]
       GetObject_blank_InvalidArgument[of "[CHR 0xC2, CHR 0xA0]" "''obj''" "exampleStore [''obj'']"]
       b1 b2 b3
  show ?thesis by simp
qed

end
